theory Spec2Isabelle
  imports Main "HOL-Library.AList" "HOL-Library.Finite_Map" "HOL-Library.Word"
begin

section \<open>The hook engine (package network, hooks)\<close>

subsection \<open>Data model\<close>

text \<open>
  \<^verbatim>\<open>type ( Prio uint; HookType string )\<close>.  A priority is only compared and printed,
  never computed with, so it is a natural number.  A \<^verbatim>\<open>Signature\<close> is a Go map from
  strings to arbitrary values: a finite map.  A nil map and an empty map have the same
  keys and are not told apart.  A \<^verbatim>\<open>HookDef\<close> is here a non-nil function on map
  values: it does not write into the map it is given and has no effect on the hook table.
  Invokers that write into their argument are the matter of the subsection on shared
  maps below.
\<close>

type_synonym Prio = nat
type_synonym HookType = string
type_synonym 'v Signature = "(string, 'v) fmap"
type_synonym 'v HookDef = "'v Signature \<Rightarrow> 'v Signature"

text \<open>\<^verbatim>\<open>type Policy int\<close> with the constants numbered by \<^verbatim>\<open>iota\<close>.\<close>

type_synonym Policy = int

definition Ignore :: Policy where "Ignore = 0"
definition Abort :: Policy where "Abort = 1"
definition Remove :: Policy where "Remove = 2"

definition OnConfigLoaded :: HookType where "OnConfigLoaded = ''onConfigLoaded''"
definition OnNewLogger :: HookType where "OnNewLogger = ''onNewLogger''"
definition OnIncomingTraffic :: HookType where "OnIncomingTraffic = ''onIncomingTraffic''"

text \<open>
  The inner table \<^verbatim>\<open>map[Prio]HookDef\<close> is an association list: its order stands for
  the order in which \<^verbatim>\<open>range\<close> happens to enumerate the keys.  The outer table
  \<^verbatim>\<open>map[HookType]map[Prio]HookDef\<close> is a partial function; a hook type without an
  entry has the nil inner map.  The logger is the list of the error messages handed to
  it: \<^verbatim>\<open>Msgf\<close> is given the finished message.
\<close>

record 'v HookConfig =
  hooks :: "HookType \<rightharpoonup> (Prio \<times> 'v HookDef) list"
  Logger :: "string list"
  Verification :: Policy

datatype panic = NilMapAssignment | NilDereference | PanicMsg string

text \<open>The dynamic type of the \<^verbatim>\<open>hook interface{}\<close> argument of \<^verbatim>\<open>AddHook\<close>.\<close>

datatype 'v iface = IsHookDef "'v HookDef" | NotHookDef

definition NewHookConfig :: "'v HookConfig" where
  "NewHookConfig = \<lparr>hooks = Map.empty, Logger = [], Verification = 0\<rparr>"

text \<open>
  \<^verbatim>\<open>h.hooks[hookType][prio] = hookDef\<close>: reading the outer map at a missing key gives
  the nil inner map, and Go panics on an assignment to an entry of a nil map.
\<close>

definition AddHook ::
  "'v HookConfig \<Rightarrow> HookType \<Rightarrow> Prio \<Rightarrow> 'v iface \<Rightarrow> panic + 'v HookConfig" where
  "AddHook h hookType prio hook =
     (case hook of
        IsHookDef hookDef \<Rightarrow>
          (case hooks h hookType of
             None \<Rightarrow> Inl NilMapAssignment
           | Some m \<Rightarrow> Inr (h\<lparr>hooks := (hooks h)(hookType \<mapsto> AList.update prio hookDef m)\<rparr>))
      | NotHookDef \<Rightarrow> Inr h)"

text \<open>\<^verbatim>\<open>h.hooks[hookType]\<close> read: the nil map has no entries.\<close>

definition GetHook :: "'v HookConfig \<Rightarrow> HookType \<Rightarrow> (Prio \<times> 'v HookDef) list" where
  "GetHook h hookType = (case hooks h hookType of None \<Rightarrow> [] | Some m \<Rightarrow> m)"

definition verify :: "'v Signature \<Rightarrow> 'v Signature \<Rightarrow> bool" where
  "verify params returnVal = fBall (fmdom returnVal) (\<lambda>key. fmlookup params key \<noteq> None)"

subsection \<open>Messages\<close>

definition digit_char :: "nat \<Rightarrow> char" where
  "digit_char d = ''0123456789'' ! d"

fun show_nat :: "nat \<Rightarrow> string" where
  "show_nat n = (if n < 10 then [digit_char n] else show_nat (n div 10) @ [digit_char (n mod 10)])"

declare show_nat.simps [simp del]

text \<open>\<^verbatim>\<open>fmt.Sprintf("Hook %s (Prio %d) returned invalid value, <action>", hookType, prio)\<close>\<close>

definition errMsg :: "HookType \<Rightarrow> Prio \<Rightarrow> string \<Rightarrow> string" where
  "errMsg hookType prio action =
     ''Hook '' @ hookType @ '' (Prio '' @ show_nat prio @ '') returned invalid value, '' @ action"

subsection \<open>RunHooks\<close>

text \<open>
  One record per invoker call, in call order: the priority of the invoker, the envelope
  it was given and the envelope it returned.  The source keeps no such list; it is the
  observable sequence of calls.
\<close>

record 'v Call =
  call_prio :: Prio
  call_arg :: "'v Signature"
  call_result :: "'v Signature"

text \<open>The local variables of the loop that outlive an iteration, and the logger.\<close>

record 'v Loop =
  returnVal :: "'v Signature"
  removeList :: "Prio list"
  logged :: "string list"

text \<open>How a call ends: it returns a value, or it panics.\<close>

datatype 'a Exit = Return 'a | Panic panic

text \<open>
  The part of the loop body after the invoker has returned \<open>result\<close>: the verification
  and the \<^verbatim>\<open>switch verification\<close>.  It gives the loop variables afterwards and how
  the body is left: \<open>None\<close> for \<^verbatim>\<open>continue\<close> (or for falling out of the switch, when
  the policy value matches no \<^verbatim>\<open>case\<close>), \<open>Some (Return s)\<close> for \<^verbatim>\<open>return s\<close>,
  \<open>Some (Panic p)\<close> for a panic.
\<close>

definition handle_result ::
  "HookType \<Rightarrow> 'v Signature \<Rightarrow> Policy \<Rightarrow> nat \<Rightarrow> Prio \<Rightarrow> 'v Signature \<Rightarrow> 'v Loop \<Rightarrow>
   'v Loop \<times> 'v Signature Exit option" where
  "handle_result hookType args verification idx prio result st =
     (if verify args result then (st\<lparr>returnVal := result\<rparr>, None)
      else if verification = Ignore then
        (if hookType \<noteq> OnConfigLoaded then
           (let st1 = st\<lparr>logged := logged st @ [errMsg hookType prio ''ignoring'']\<rparr>
            in (if idx = 0 then st1\<lparr>returnVal := args\<rparr> else st1, None))
         else (st, Some (Panic (PanicMsg (errMsg hookType prio ''ignoring'')))))
      else if verification = Abort then
        (if hookType \<noteq> OnConfigLoaded then
           (let st1 = st\<lparr>logged := logged st @ [errMsg hookType prio ''aborting'']\<rparr>
            in (st1, Some (Return (if idx = 0 then args else returnVal st1))))
         else (st, Some (Panic (PanicMsg (errMsg hookType prio ''aborting'')))))
      else if verification = Remove then
        (if hookType \<noteq> OnConfigLoaded then
           (let st1 = st\<lparr>logged := logged st @ [errMsg hookType prio ''removing''],
                          removeList := removeList st @ [prio]\<rparr>
            in (if idx = 0 then st1\<lparr>returnVal := args\<rparr> else st1, None))
         else (st, Some (Panic (PanicMsg (errMsg hookType prio ''removing'')))))
      else (st, None))"

text \<open>
  The \<^verbatim>\<open>for idx, prio := range priorities\<close> loop.  The result is the calls made,
  the loop variables at the end, and how the loop was left (\<open>None\<close> when it ran to its
  end).  The first invoker is given \<open>args\<close>, the later ones \<open>returnVal\<close>.  A lookup of
  a priority that is not in the table gives the nil function, and calling it panics.
\<close>

fun run_loop ::
  "HookType \<Rightarrow> (Prio \<times> 'v HookDef) list \<Rightarrow> 'v Signature \<Rightarrow> Policy \<Rightarrow> nat \<Rightarrow> Prio list \<Rightarrow>
   'v Loop \<Rightarrow> 'v Call list \<times> 'v Loop \<times> 'v Signature Exit option" where
  "run_loop hookType table args verification idx [] st = ([], st, None)"
| "run_loop hookType table args verification idx (prio # rest) st =
     (case map_of table prio of
        None \<Rightarrow> ([], st, Some (Panic NilDereference))
      | Some hook \<Rightarrow>
          (let arg = (if idx = 0 then args else returnVal st);
               result = hook arg;
               call = \<lparr>call_prio = prio, call_arg = arg, call_result = result\<rparr>
           in case handle_result hookType args verification idx prio result st of
                (st1, Some ex) \<Rightarrow> ([call], st1, Some ex)
              | (st1, None) \<Rightarrow>
                  (case run_loop hookType table args verification (Suc idx) rest st1 of
                     (cs, st', ex) \<Rightarrow> (call # cs, st', ex))))"

text \<open>
  What one invocation leaves behind: the hook configuration afterwards, how the call
  ended, and the invoker calls it made.
\<close>

record 'v Run =
  config :: "'v HookConfig"
  exit :: "'v Signature Exit"
  calls :: "'v Call list"

text \<open>
  \<^verbatim>\<open>RunHooks\<close>: collect the keys of \<^verbatim>\<open>h.hooks[hookType]\<close>, sort them (stably, by
  \<^verbatim>\<open><\<close>), run the loop from \<^verbatim>\<open>returnVal := make(Signature)\<close>, then delete the
  priorities of the remove list and return \<^verbatim>\<open>returnVal\<close>.  A \<^verbatim>\<open>return\<close> or a panic
  inside the loop skips the deletions; \<^verbatim>\<open>delete\<close> on the nil map does nothing.
\<close>

definition RunHooks ::
  "'v HookConfig \<Rightarrow> HookType \<Rightarrow> 'v Signature \<Rightarrow> Policy \<Rightarrow> 'v Run" where
  "RunHooks h hookType args verification =
     (let priorities = sort (map fst (GetHook h hookType));
          init = \<lparr>returnVal = fmempty, removeList = [], logged = Logger h\<rparr>
      in case run_loop hookType (GetHook h hookType) args verification 0 priorities init of
           (cs, st, Some ex) \<Rightarrow> \<lparr>config = h\<lparr>Logger := logged st\<rparr>, exit = ex, calls = cs\<rparr>
         | (cs, st, None) \<Rightarrow>
             \<lparr>config = h\<lparr>Logger := logged st,
                          hooks := (case hooks h hookType of
                                      None \<Rightarrow> hooks h
                                    | Some m \<Rightarrow> (hooks h)(hookType \<mapsto> fold AList.delete (removeList st) m))\<rparr>,
              exit = Return (returnVal st), calls = cs\<rparr>)"

subsection \<open>RunHooks with maps as shared objects\<close>

text \<open>
  A Go map is a reference.  \<^verbatim>\<open>RunHooks\<close> hands the first invoker the map \<open>args\<close> itself
  and the later ones the map that \<open>returnVal\<close> refers to, and \<^verbatim>\<open>verify(args, result)\<close>
  reads \<open>args\<close> after the invoker has returned.  The definitions above take an invoker as
  a function on map values, which is the code for invokers that do not write into the
  map they are given.  Here an invoker may write into its argument, and it returns either
  that very map or another one: \<open>invoker m = (m', r)\<close> for the contents \<open>m\<close> of the argument
  on entry, its contents \<open>m'\<close> on return, and what is returned.  An invoker that keeps a
  map for a later call, or returns a map that something else holds, is not covered.
\<close>

datatype 'v Returned = TheArgument | Another "'v Signature"

type_synonym 'v SharedHookDef = "'v Signature \<Rightarrow> 'v Signature \<times> 'v Returned"

text \<open>
  What a variable of type \<^verbatim>\<open>Signature\<close> refers to: the map of the caller, \<open>args\<close>, or
  another map, which only this variable refers to and which is given by its contents.
\<close>

datatype 'v Ref = ArgsMap | OtherMap "'v Signature"

text \<open>
  The contents of the map \<open>args\<close> as they are now, what \<open>returnVal\<close> refers to, the remove
  list and the logger.
\<close>

record 'v SharedLoop =
  argsNow :: "'v Signature"
  returnRef :: "'v Ref"
  toRemove :: "Prio list"
  logLines :: "string list"

definition deref :: "'v SharedLoop \<Rightarrow> 'v Ref \<Rightarrow> 'v Signature" where
  "deref st r = (case r of ArgsMap \<Rightarrow> argsNow st | OtherMap m \<Rightarrow> m)"

text \<open>
  \<^verbatim>\<open>result = hook(args)\<close> for the first invoker, \<^verbatim>\<open>result = hook(returnVal)\<close> for the
  others.  The result is the contents of the argument on entry, the state after the
  invoker has written into its argument, and what \<open>result\<close> refers to.
\<close>

definition call_hook ::
  "'v SharedHookDef \<Rightarrow> nat \<Rightarrow> 'v SharedLoop \<Rightarrow> 'v Signature \<times> 'v SharedLoop \<times> 'v Ref" where
  "call_hook hook idx st =
     (let given = (if idx = 0 then ArgsMap else returnRef st);
          entry = deref st given
      in case hook entry of
           (left, returned) \<Rightarrow>
             (case given of
                ArgsMap \<Rightarrow>
                  (entry, st\<lparr>argsNow := left\<rparr>,
                   case returned of TheArgument \<Rightarrow> ArgsMap | Another m \<Rightarrow> OtherMap m)
              | OtherMap old \<Rightarrow>
                  (entry, st\<lparr>returnRef := OtherMap left\<rparr>,
                   case returned of TheArgument \<Rightarrow> OtherMap left | Another m \<Rightarrow> OtherMap m)))"

text \<open>The verification and the \<^verbatim>\<open>switch\<close>, as in \<open>handle_result\<close>, on references.\<close>

definition handle_shared ::
  "HookType \<Rightarrow> Policy \<Rightarrow> nat \<Rightarrow> Prio \<Rightarrow> 'v Ref \<Rightarrow> 'v SharedLoop \<Rightarrow>
   'v SharedLoop \<times> 'v Signature Exit option" where
  "handle_shared hookType verification idx prio result st =
     (if verify (argsNow st) (deref st result) then (st\<lparr>returnRef := result\<rparr>, None)
      else if verification = Ignore then
        (if hookType \<noteq> OnConfigLoaded then
           (let st1 = st\<lparr>logLines := logLines st @ [errMsg hookType prio ''ignoring'']\<rparr>
            in (if idx = 0 then st1\<lparr>returnRef := ArgsMap\<rparr> else st1, None))
         else (st, Some (Panic (PanicMsg (errMsg hookType prio ''ignoring'')))))
      else if verification = Abort then
        (if hookType \<noteq> OnConfigLoaded then
           (let st1 = st\<lparr>logLines := logLines st @ [errMsg hookType prio ''aborting'']\<rparr>
            in (st1, Some (Return (if idx = 0 then argsNow st1 else deref st1 (returnRef st1)))))
         else (st, Some (Panic (PanicMsg (errMsg hookType prio ''aborting'')))))
      else if verification = Remove then
        (if hookType \<noteq> OnConfigLoaded then
           (let st1 = st\<lparr>logLines := logLines st @ [errMsg hookType prio ''removing''],
                          toRemove := toRemove st @ [prio]\<rparr>
            in (if idx = 0 then st1\<lparr>returnRef := ArgsMap\<rparr> else st1, None))
         else (st, Some (Panic (PanicMsg (errMsg hookType prio ''removing'')))))
      else (st, None))"

fun loop_shared ::
  "HookType \<Rightarrow> (Prio \<times> 'v SharedHookDef) list \<Rightarrow> Policy \<Rightarrow> nat \<Rightarrow> Prio list \<Rightarrow>
   'v SharedLoop \<Rightarrow> 'v Call list \<times> 'v SharedLoop \<times> 'v Signature Exit option" where
  "loop_shared hookType table verification idx [] st = ([], st, None)"
| "loop_shared hookType table verification idx (prio # rest) st =
     (case map_of table prio of
        None \<Rightarrow> ([], st, Some (Panic NilDereference))
      | Some hook \<Rightarrow>
          (case call_hook hook idx st of
             (entry, st0, result) \<Rightarrow>
               (let call = \<lparr>call_prio = prio, call_arg = entry, call_result = deref st0 result\<rparr>
                in case handle_shared hookType verification idx prio result st0 of
                     (st1, Some ex) \<Rightarrow> ([call], st1, Some ex)
                   | (st1, None) \<Rightarrow>
                       (case loop_shared hookType table verification (Suc idx) rest st1 of
                          (cs, st', ex) \<Rightarrow> (call # cs, st', ex)))))"

text \<open>
  What one invocation leaves behind: the inner table of the hook type and the logger
  afterwards, how the call ended (a returned map is given by its contents at that
  moment), the invoker calls, and the contents of the caller's map \<open>args\<close> afterwards.
\<close>

record 'v SharedRun =
  table_after :: "(Prio \<times> 'v SharedHookDef) list"
  log_after :: "string list"
  exit_shared :: "'v Signature Exit"
  calls_shared :: "'v Call list"
  args_after :: "'v Signature"

text \<open>
  \<^verbatim>\<open>RunHooks\<close> on the inner table \<^verbatim>\<open>h.hooks[hookType]\<close> and the logger of \<open>h\<close>.
\<close>

definition RunHooks_shared ::
  "(Prio \<times> 'v SharedHookDef) list \<Rightarrow> string list \<Rightarrow> HookType \<Rightarrow> 'v Signature \<Rightarrow> Policy \<Rightarrow>
   'v SharedRun" where
  "RunHooks_shared table logger hookType args verification =
     (let priorities = sort (map fst table);
          init = \<lparr>argsNow = args, returnRef = OtherMap fmempty, toRemove = [], logLines = logger\<rparr>
      in case loop_shared hookType table verification 0 priorities init of
           (cs, st, Some ex) \<Rightarrow>
             \<lparr>table_after = table, log_after = logLines st, exit_shared = ex,
              calls_shared = cs, args_after = argsNow st\<rparr>
         | (cs, st, None) \<Rightarrow>
             \<lparr>table_after = fold AList.delete (toRemove st) table, log_after = logLines st,
              exit_shared = Return (deref st (returnRef st)),
              calls_shared = cs, args_after = argsNow st\<rparr>)"

text \<open>
  An invoker that leaves its argument as it is, and the function on map values that it
  then is.
\<close>

definition leaves_argument :: "'v SharedHookDef \<Rightarrow> bool" where
  "leaves_argument hook = (\<forall>m. fst (hook m) = m)"

definition as_value :: "'v SharedHookDef \<Rightarrow> 'v HookDef" where
  "as_value hook m = (case snd (hook m) of TheArgument \<Rightarrow> m | Another r \<Rightarrow> r)"

text \<open>
  The table of the functions on map values, and when a state of the loop above and a
  state of the loop on shared maps stand for the same thing.
\<close>

definition value_table :: "(Prio \<times> 'v SharedHookDef) list \<Rightarrow> (Prio \<times> 'v HookDef) list" where
  "value_table table = map (\<lambda>(p, hook). (p, as_value hook)) table"

definition same_state :: "'v Signature \<Rightarrow> 'v SharedLoop \<Rightarrow> 'v Loop \<Rightarrow> bool" where
  "same_state args ss st =
     (argsNow ss = args \<and> deref ss (returnRef ss) = returnVal st \<and>
      toRemove ss = removeList st \<and> logLines ss = logged st)"

section \<open>The upstream client and the proxy (package network)\<close>

subsection \<open>Errors\<close>

text \<open>
  The error values of package \<^verbatim>\<open>errors\<close>, \<^verbatim>\<open>io.EOF\<close>, any other error of the
  network, and \<^verbatim>\<open>fmt.Errorf("<msg>: %w", err)\<close>, which wraps an error.
\<close>

datatype error =
    ErrClientNotFound
  | ErrNetworkNotSupported
  | ErrClientNotConnected
  | ErrPoolExhausted
  | ErrPluginNotFound
  | ErrPluginNotReady
  | EOF
  | OtherError string
  | Wrapped string error

text \<open>\<^verbatim>\<open>errors.Is(err, target)\<close> for a non-nil \<open>err\<close>: it follows the chain of wrapped errors.\<close>

fun errors_Is :: "error \<Rightarrow> error \<Rightarrow> bool" where
  "errors_Is (Wrapped msg e) target = (Wrapped msg e = target \<or> errors_Is e target)"
| "errors_Is e target = (e = target)"

subsection \<open>The world outside the process\<close>

text \<open>
  An upstream connection (\<^verbatim>\<open>net.Conn\<close>) and an inbound connection (\<^verbatim>\<open>gnet.Conn\<close>)
  are named by handles.  The world holds the outcomes of the \<^verbatim>\<open>net.Dial\<close> calls still
  to come (\<open>None\<close> is a dial error; when the list is used up every dial fails), and
  records what the process did to it: the dials made, the upstream connections closed
  and the bytes written to inbound connections.
\<close>

type_synonym conn = nat
type_synonym gconn = nat
type_synonym byte = "8 word"

record World =
  dial_results :: "conn option list"
  dials :: "(string \<times> string) list"
  closed :: "conn list"
  written :: "(gconn \<times> byte list) list"

definition net_Dial :: "World \<Rightarrow> string \<Rightarrow> string \<Rightarrow> World \<times> conn option" where
  "net_Dial w network address =
     (case dial_results w of
        [] \<Rightarrow> (w\<lparr>dials := dials w @ [(network, address)]\<rparr>, None)
      | d # ds \<Rightarrow> (w\<lparr>dial_results := ds, dials := dials w @ [(network, address)]\<rparr>, d))"

text \<open>
  Functions and constants of the package that the client uses and whose source is not
  at hand are parameters: \<^verbatim>\<open>Resolve\<close> (the resolved address, empty when it fails),
  the local address of a connection (network and address), \<^verbatim>\<open>GetID\<close> and
  \<^verbatim>\<open>DefaultBufferSize\<close>.
\<close>

record Platform =
  Resolve :: "string \<Rightarrow> string \<Rightarrow> string"
  LocalAddr :: "conn \<Rightarrow> string \<times> string"
  GetID :: "string \<Rightarrow> string \<Rightarrow> int \<Rightarrow> string"
  DefaultBufferSize :: int

definition DefaultSeed :: int where "DefaultSeed = 1000"

subsection \<open>Client\<close>

text \<open>
  The fields of \<^verbatim>\<open>Client\<close> but the logger.  \<open>Conn = None\<close> is the nil connection.  A
  \<^verbatim>\<open>*Client\<close> is a \<open>Client option\<close>, \<open>None\<close> the nil pointer; clients are passed by
  value, as no two owners of one client are ever read after a change through one of
  them.
\<close>

record Client =
  Conn :: "conn option"
  ID :: string
  ReceiveBufferSize :: int
  Network :: string
  Address :: string

definition NewClient ::
  "Platform \<Rightarrow> World \<Rightarrow> string \<Rightarrow> string \<Rightarrow> int \<Rightarrow> World \<times> Client option" where
  "NewClient pf w network address receiveBufferSize =
     (let addr = Resolve pf network address;
          client = \<lparr>Conn = None, ID = [], ReceiveBufferSize = 0, Network = network, Address = addr\<rparr>;
          client = (if Address client = [] \<or> Network client = []
                    then \<lparr>Conn = None, ID = [], ReceiveBufferSize = 0,
                           Network = network, Address = address\<rparr>
                    else client)
      in case net_Dial w (Network client) (Address client) of
           (w1, None) \<Rightarrow> (w1, None)
         | (w1, Some c) \<Rightarrow>
             (let client = client\<lparr>Conn := Some c\<rparr>;
                  client = (if receiveBufferSize \<le> 0
                            then client\<lparr>ReceiveBufferSize := DefaultBufferSize pf\<rparr>
                            else client\<lparr>ReceiveBufferSize := receiveBufferSize\<rparr>);
                  client = client\<lparr>ID := GetID pf (fst (LocalAddr pf c)) (snd (LocalAddr pf c))
                                              DefaultSeed\<rparr>
              in (w1, Some client)))"

text \<open>
  \<^verbatim>\<open>Send\<close> calls \<^verbatim>\<open>Write\<close> of the embedded connection, whose outcome is the world's;
  on a nil client or a nil connection the call is a nil dereference.
\<close>

definition Send :: "Client option \<Rightarrow> error option \<Rightarrow> error option Exit" where
  "Send c write_outcome =
     (case c of
        None \<Rightarrow> Panic NilDereference
      | Some cl \<Rightarrow>
          (case Conn cl of
             None \<Rightarrow> Panic NilDereference
           | Some k \<Rightarrow>
               (case write_outcome of
                  Some err \<Rightarrow> Return (Some (Wrapped ''couldn't send data to the server'' err))
                | None \<Rightarrow> Return None)))"

text \<open>
  \<^verbatim>\<open>Receive\<close> first makes the buffer, \<^verbatim>\<open>make([]byte, c.ReceiveBufferSize)\<close>, which
  panics for a negative size, then calls \<^verbatim>\<open>Read\<close> of the embedded connection, which
  fills at most the buffer.  It gives \<^verbatim>\<open>(0, nil, err)\<close> with the error wrapped, or the
  bytes read and no error; the result here is \<^verbatim>\<open>response[:size]\<close> and the error.
\<close>

definition Receive :: "Client option \<Rightarrow> error + byte list \<Rightarrow> (byte list \<times> error option) Exit" where
  "Receive c read_outcome =
     (case c of
        None \<Rightarrow> Panic NilDereference
      | Some cl \<Rightarrow>
          if ReceiveBufferSize cl < 0 then Panic (PanicMsg ''makeslice: len out of range'')
          else
            (case Conn cl of
               None \<Rightarrow> Panic NilDereference
             | Some k \<Rightarrow>
                 (case read_outcome of
                    Inl err \<Rightarrow>
                      Return ([], Some (Wrapped ''couldn't receive data from the server'' err))
                  | Inr buf \<Rightarrow> Return (take (nat (ReceiveBufferSize cl)) buf, None))))"

text \<open>\<^verbatim>\<open>Close\<close> on a non-nil receiver.\<close>

definition Close :: "World \<Rightarrow> Client \<Rightarrow> World \<times> Client" where
  "Close w c =
     (let w1 = (case Conn c of None \<Rightarrow> w | Some k \<Rightarrow> w\<lparr>closed := closed w @ [k]\<rparr>)
      in (w1, c\<lparr>ID := [], Conn := None, Address := [], Network := [], ReceiveBufferSize := 0\<rparr>))"

text \<open>
  \<^verbatim>\<open>client.Close()\<close> through a pointer: the first statement of \<^verbatim>\<open>Close\<close> reads
  \<^verbatim>\<open>c.logger\<close> and \<^verbatim>\<open>c.Address\<close>, a nil dereference when the pointer is nil.
\<close>

definition Close_ptr :: "World \<Rightarrow> Client option \<Rightarrow> (World \<times> Client) Exit" where
  "Close_ptr w c = (case c of None \<Rightarrow> Panic NilDereference | Some cl \<Rightarrow> Return (Close w cl))"

subsection \<open>Pool\<close>

text \<open>
  Modelled from the spec: the \<^verbatim>\<open>Pool\<close> type (\<^verbatim>\<open>ClientIDs\<close>, \<^verbatim>\<open>Pop\<close>, \<^verbatim>\<open>Put\<close>), whose
  source is not at hand.  It is a container of clients keyed by id; \<^verbatim>\<open>Put\<close> inserts
  if the id is absent and rejects duplicates and inserts after shutdown; \<^verbatim>\<open>Pop\<close>
  removes and returns the client, or gives nil when the id is absent.
\<close>

record Pool =
  held :: "(string \<times> Client) list"
  shut :: bool

definition ClientIDs :: "Pool \<Rightarrow> string list" where
  "ClientIDs p = map fst (held p)"

definition Pop :: "Pool \<Rightarrow> string \<Rightarrow> Pool \<times> Client option" where
  "Pop p cid =
     (case map_of (held p) cid of
        None \<Rightarrow> (p, None)
      | Some c \<Rightarrow> (p\<lparr>held := AList.delete cid (held p)\<rparr>, Some c))"

definition Put :: "Pool \<Rightarrow> Client \<Rightarrow> Pool \<times> error option" where
  "Put p c =
     (if shut p then (p, Some (OtherError ''pool is shut down''))
      else if ID c \<in> set (ClientIDs p) then (p, Some (OtherError ''client is already in the pool''))
      else (p\<lparr>held := held p @ [(ID c, c)]\<rparr>, None))"

subsection \<open>Proxy\<close>

text \<open>
  \<^verbatim>\<open>connClients\<close> is the \<^verbatim>\<open>sync.Map\<close> from inbound connections to \<^verbatim>\<open>*Client\<close>: an
  entry can hold the nil pointer.
\<close>

record ProxyImpl =
  pool :: Pool
  connClients :: "gconn \<rightharpoonup> Client option"
  PoolSize :: int
  Elastic :: bool
  ReuseElasticClients :: bool
  BufferSize :: int

definition Reconnect :: "Platform \<Rightarrow> World \<Rightarrow> ProxyImpl \<Rightarrow> Client option \<Rightarrow> World \<times> Client option" where
  "Reconnect pf w pr cl =
     (let w1 = (case cl of
                  None \<Rightarrow> w
                | Some c \<Rightarrow> if ID c \<noteq> [] then fst (Close w c) else w)
      in NewClient pf w1 ''tcp'' ''localhost:5432'' (BufferSize pr))"

text \<open>
  \<^verbatim>\<open>Connect\<close>.  In the elastic branch the debug line reads \<^verbatim>\<open>client.ID\<close> of the client
  just made, and the test \<^verbatim>\<open>client.ID != ""\<close> reads it again: a nil dereference when
  the client is nil.
\<close>

definition Connect ::
  "Platform \<Rightarrow> World \<times> ProxyImpl \<Rightarrow> gconn \<Rightarrow> (World \<times> ProxyImpl) \<times> error option Exit" where
  "Connect pf s gconn =
     (case s of (w, pr) \<Rightarrow>
        (let clientIDs = ClientIDs (pool pr);
             assign = (\<lambda>w1 pr1 client.
               case client of
                 None \<Rightarrow> ((w1, pr1), Panic NilDereference)
               | Some c \<Rightarrow>
                   if ID c \<noteq> []
                   then ((w1, pr1\<lparr>connClients := (connClients pr1)(gconn \<mapsto> Some c)\<rparr>), Return None)
                   else ((w1, pr1), Return (Some ErrClientNotConnected)))
         in if length clientIDs = 0 then
              (if Elastic pr then
                 (case NewClient pf w ''tcp'' ''localhost:5432'' (BufferSize pr) of
                    (w1, client) \<Rightarrow> assign w1 pr client)
               else ((w, pr), Return (Some ErrPoolExhausted)))
            else
              (case Pop (pool pr) (hd clientIDs) of
                 (pool1, client) \<Rightarrow> assign w (pr\<lparr>pool := pool1\<rparr>) client)))"

definition Disconnect ::
  "Platform \<Rightarrow> World \<times> ProxyImpl \<Rightarrow> gconn \<Rightarrow> (World \<times> ProxyImpl) \<times> error option Exit" where
  "Disconnect pf s gconn =
     (case s of (w, pr) \<Rightarrow>
        (let client = (case connClients pr gconn of None \<Rightarrow> None | Some c \<Rightarrow> c);
             pr1 = pr\<lparr>connClients := (connClients pr)(gconn := None)\<rparr>
         in if Elastic pr1 \<and> ReuseElasticClients pr1 \<or> \<not> Elastic pr1 then
              (case Reconnect pf w pr1 client of
                 (w1, client1) \<Rightarrow>
                   (case client1 of
                      None \<Rightarrow> ((w1, pr1), Return None)
                    | Some c \<Rightarrow>
                        if ID c \<noteq> [] then
                          (case Put (pool pr1) c of
                             (pool1, Some err) \<Rightarrow>
                               ((w1, pr1\<lparr>pool := pool1\<rparr>),
                                Return (Some (Wrapped ''failed to put the client back in the pool'' err)))
                           | (pool1, None) \<Rightarrow> ((w1, pr1\<lparr>pool := pool1\<rparr>), Return None))
                        else ((w1, pr1), Return None)))
            else
              (case Close_ptr w client of
                 Panic p \<Rightarrow> ((w, pr1), Panic p)
               | Return (w1, c) \<Rightarrow> ((w1, pr1), Return None))))"

text \<open>
  What the world does during one \<^verbatim>\<open>PassThrough\<close>: the bytes that \<^verbatim>\<open>gconn.Next(-1)\<close>
  yields, the outcome of the upstream write and the outcome of the upstream read.  The
  two traffic callbacks only have their errors logged and are left out.
\<close>

record Exchange =
  request :: "byte list"
  write_outcome :: "error option"
  read_outcome :: "error + byte list"

definition PassThrough ::
  "Platform \<Rightarrow> World \<times> ProxyImpl \<Rightarrow> gconn \<Rightarrow> Exchange \<Rightarrow>
   (World \<times> ProxyImpl) \<times> error option Exit" where
  "PassThrough pf s gconn x =
     (case s of (w, pr) \<Rightarrow>
        (case connClients pr gconn of
           None \<Rightarrow> ((w, pr), Return (Some ErrClientNotFound))
         | Some client \<Rightarrow>
             (case Send client (write_outcome x) of
                Panic p \<Rightarrow> ((w, pr), Panic p)
              | Return (Some err) \<Rightarrow> ((w, pr), Return (Some err))
              | Return None \<Rightarrow>
                  (case Receive client (read_outcome x) of
                     Panic p \<Rightarrow> ((w, pr), Panic p)
                   | Return (response, None) \<Rightarrow>
                       ((w\<lparr>written := written w @ [(gconn, response)]\<rparr>, pr), Return None)
                   | Return (response, Some err) \<Rightarrow>
                       if errors_Is err EOF then
                         (case Reconnect pf w pr client of
                            (w1, client1) \<Rightarrow>
                              ((w1, pr\<lparr>connClients := (connClients pr)(gconn \<mapsto> client1)\<rparr>),
                               Return None))
                       else ((w\<lparr>written := written w @ [(gconn, response)]\<rparr>, pr), Return None)))))"

section \<open>Concrete configurations\<close>

text \<open>
  Two invokers over envelopes of numbers: one returns its input, one adds the key
  \<^verbatim>\<open>extra\<close>.  The table registers the second at priority 1 and the first at priority 2
  for \<^verbatim>\<open>onNewLogger\<close>, and the second alone for \<^verbatim>\<open>onConfigLoaded\<close>.
\<close>

definition same_hook :: "nat HookDef" where
  "same_hook s = s"

definition extra_hook :: "nat HookDef" where
  "extra_hook s = fmupd ''extra'' 1 s"

definition two_hooks :: "nat HookConfig" where
  "two_hooks =
     \<lparr>hooks = [OnNewLogger \<mapsto> [(2, same_hook), (1, extra_hook)],
                OnConfigLoaded \<mapsto> [(1, extra_hook)]],
      Logger = [], Verification = 0\<rparr>"

definition request_args :: "nat Signature" where
  "request_args = fmupd ''request'' 7 fmempty"

text \<open>
  An invoker that writes the key \<^verbatim>\<open>extra\<close> into the map it is given and returns that
  map: \<^verbatim>\<open>func(s Signature) Signature { s["extra"] = 1; return s }\<close>.
\<close>

definition writing_hook :: "nat SharedHookDef" where
  "writing_hook m = (fmupd ''extra'' 1 m, TheArgument)"

text \<open>
  A platform whose connections have the local address \<^verbatim>\<open>127.0.0.1:4000n\<close> and whose
  ids are made of the local network and address; a connected client; a world whose next
  dial succeeds and one whose next dial fails; a fixed and an elastic proxy with an empty
  pool and that client assigned to the inbound connection 7; an exchange in which the
  upstream read fails with \<^verbatim>\<open>io.EOF\<close>.
\<close>

definition test_platform :: Platform where
  "test_platform =
     \<lparr>Resolve = (\<lambda>network address. address),
      LocalAddr = (\<lambda>c. (''tcp'', ''127.0.0.1:'' @ show_nat (40000 + c))),
      GetID = (\<lambda>network address seed. network @ ''/'' @ address),
      DefaultBufferSize = 4096\<rparr>"

definition live_client :: Client where
  "live_client =
     \<lparr>Conn = Some 1, ID = ''tcp/127.0.0.1:40001'', ReceiveBufferSize = 4096,
      Network = ''tcp'', Address = ''localhost:5432''\<rparr>"

definition up_world :: World where
  "up_world = \<lparr>dial_results = [Some 2], dials = [], closed = [], written = []\<rparr>"

definition down_world :: World where
  "down_world = \<lparr>dial_results = [None], dials = [], closed = [], written = []\<rparr>"

definition fixed_proxy :: ProxyImpl where
  "fixed_proxy =
     \<lparr>pool = \<lparr>held = [], shut = False\<rparr>, connClients = [7 \<mapsto> Some live_client],
      PoolSize = 1, Elastic = False, ReuseElasticClients = False, BufferSize = 4096\<rparr>"

definition elastic_proxy :: ProxyImpl where
  "elastic_proxy = fixed_proxy\<lparr>Elastic := True\<rparr>"

definition eof_exchange :: Exchange where
  "eof_exchange = \<lparr>request = [0x51], write_outcome = None, read_outcome = Inl EOF\<rparr>"

section \<open>Properties of the hook engine\<close>

subsection \<open>Verification\<close>

lemma verify_iff: "verify params rv = (fmdom rv |\<subseteq>| fmdom params)"
  by (auto simp: verify_def fmlookup_dom_iff)

lemma verify_refl: "verify args args"
  by (simp add: verify_iff)

lemma verify_empty: "verify args fmempty"
  by (simp add: verify_iff)

subsection \<open>One iteration\<close>

lemma handle_result_closed:
  assumes "handle_result hookType args verification idx prio result st = (st1, ex)"
    and "verify args (returnVal st)"
  shows "verify args (returnVal st1)" and "ex = Some (Return r) \<Longrightarrow> verify args r"
  using assms by (auto simp: handle_result_def Let_def verify_refl split: if_splits)

lemma handle_result_accept:
  assumes "handle_result hookType args verification idx prio result st = (st1, ex)"
    and "verify args (returnVal st)"
  shows "(returnVal st1 = result) = verify args result"
    and "ex = Some (Return r) \<Longrightarrow> r \<noteq> result \<and> \<not> verify args result"
  using assms verify_refl[of args]
  by (auto simp: handle_result_def Let_def split: if_splits)


subsection \<open>The loop\<close>

lemma run_loop_Cons:
  assumes "run_loop hookType table args verification idx (prio # rest) st = (cs, st', ex)"
  obtains (nilfunc) "map_of table prio = None" "cs = []" "st' = st" "ex = Some (Panic NilDereference)"
  | (leave) hook e where "map_of table prio = Some hook" "ex = Some e"
      "cs = [\<lparr>call_prio = prio, call_arg = (if idx = 0 then args else returnVal st),
              call_result = hook (if idx = 0 then args else returnVal st)\<rparr>]"
      "handle_result hookType args verification idx prio
         (hook (if idx = 0 then args else returnVal st)) st = (st', Some e)"
  | (continue) hook st1 cs' where "map_of table prio = Some hook"
      "cs = \<lparr>call_prio = prio, call_arg = (if idx = 0 then args else returnVal st),
              call_result = hook (if idx = 0 then args else returnVal st)\<rparr> # cs'"
      "handle_result hookType args verification idx prio
         (hook (if idx = 0 then args else returnVal st)) st = (st1, None)"
      "run_loop hookType table args verification (Suc idx) rest st1 = (cs', st', ex)"
  using assms by (auto simp: Let_def split: option.splits prod.splits)

lemma run_loop_prios:
  "run_loop hookType table args verification idx prios st = (cs, st', ex) \<Longrightarrow>
   map call_prio cs = take (length cs) prios"
proof (induction prios arbitrary: idx st cs)
  case Nil
  then show ?case by simp
next
  case (Cons prio rest)
  from Cons.prems show ?case
    by (cases rule: run_loop_Cons) (auto dest: Cons.IH)
qed

lemma run_loop_invoker:
  "run_loop hookType table args verification idx prios st = (cs, st', ex) \<Longrightarrow> c \<in> set cs \<Longrightarrow>
   \<exists>hook. map_of table (call_prio c) = Some hook \<and> call_result c = hook (call_arg c)"
proof (induction prios arbitrary: idx st cs)
  case Nil
  then show ?case by simp
next
  case (Cons prio rest)
  from Cons.prems(1) show ?case
    using Cons.prems(2) by (cases rule: run_loop_Cons) (auto dest: Cons.IH)
qed

lemma run_loop_first:
  assumes "run_loop hookType table args verification idx prios st = (cs, st', ex)" and "cs \<noteq> []"
  shows "call_arg (hd cs) = (if idx = 0 then args else returnVal st)"
proof (cases prios)
  case Nil
  with assms show ?thesis by simp
next
  case (Cons prio rest)
  from assms(1)[unfolded Cons] show ?thesis
    by (cases rule: run_loop_Cons) (use assms(2) in simp_all)
qed

lemma run_loop_closed:
  "run_loop hookType table args verification idx prios st = (cs, st', ex) \<Longrightarrow>
   verify args (returnVal st) \<Longrightarrow>
   verify args (returnVal st') \<and> (\<forall>r. ex = Some (Return r) \<longrightarrow> verify args r)"
proof (induction prios arbitrary: idx st cs)
  case Nil
  then show ?case by simp
next
  case (Cons prio rest)
  from Cons.prems(1) show ?case
  proof (cases rule: run_loop_Cons)
    case nilfunc
    with Cons.prems show ?thesis by simp
  next
    case (leave hook e)
    with Cons.prems(2) show ?thesis
      by (auto dest: handle_result_closed)
  next
    case (continue hook st1 cs')
    from continue(3) Cons.prems(2) have "verify args (returnVal st1)"
      by (rule handle_result_closed)
    with continue(4) show ?thesis by (rule Cons.IH)
  qed
qed

lemma run_loop_chain:
  "run_loop hookType table args verification idx prios st = (cs, st', ex) \<Longrightarrow>
   verify args (returnVal st) \<Longrightarrow> Suc i < length cs \<Longrightarrow>
   (call_arg (cs ! Suc i) = call_result (cs ! i)) = verify args (call_result (cs ! i))"
proof (induction prios arbitrary: idx st cs i)
  case Nil
  then show ?case by simp
next
  case (Cons prio rest)
  from Cons.prems(1) show ?case
  proof (cases rule: run_loop_Cons)
    case nilfunc
    with Cons.prems show ?thesis by simp
  next
    case (leave hook e)
    with Cons.prems show ?thesis by simp
  next
    case (continue hook st1 cs')
    have inv1: "verify args (returnVal st1)"
      using continue(3) Cons.prems(2) by (rule handle_result_closed)
    show ?thesis
    proof (cases i)
      case 0
      with Cons.prems(3) continue(2) have ne: "cs' \<noteq> []" by auto
      have "call_arg (hd cs') = returnVal st1"
        using run_loop_first[OF continue(4) ne] by simp
      moreover have "hd cs' = cs' ! 0"
        using ne by (simp add: hd_conv_nth)
      ultimately show ?thesis
        using 0 continue(2) handle_result_accept(1)[OF continue(3) Cons.prems(2)] by simp
    next
      case (Suc k)
      with Cons.prems(3) continue(2) have "Suc k < length cs'" by simp
      from Cons.IH[OF continue(4) inv1 this] show ?thesis
        using Suc continue(2) by simp
    qed
  qed
qed

lemma run_loop_no_calls:
  assumes "run_loop hookType table args verification idx prios st = ([], st', ex)"
  shows "st' = st \<and> (ex = None \<or> ex = Some (Panic NilDereference))"
proof (cases prios)
  case Nil
  with assms show ?thesis by simp
next
  case (Cons prio rest)
  from assms[unfolded Cons] show ?thesis
    by (cases rule: run_loop_Cons) simp_all
qed

lemma run_loop_last:
  "run_loop hookType table args verification idx prios st = (cs, st', ex) \<Longrightarrow>
   verify args (returnVal st) \<Longrightarrow> cs \<noteq> [] \<Longrightarrow>
   (ex = None \<longrightarrow> (returnVal st' = call_result (last cs)) = verify args (call_result (last cs))) \<and>
   (\<forall>r. ex = Some (Return r) \<longrightarrow> r \<noteq> call_result (last cs) \<and> \<not> verify args (call_result (last cs)))"
proof (induction prios arbitrary: idx st cs)
  case Nil
  then show ?case by simp
next
  case (Cons prio rest)
  from Cons.prems(1) show ?case
  proof (cases rule: run_loop_Cons)
    case nilfunc
    with Cons.prems show ?thesis by simp
  next
    case (leave hook e)
    with Cons.prems(2) show ?thesis
      by (auto dest: handle_result_accept(2))
  next
    case (continue hook st1 cs')
    have inv1: "verify args (returnVal st1)"
      using continue(3) Cons.prems(2) by (rule handle_result_closed)
    show ?thesis
    proof (cases "cs' = []")
      case True
      with continue(4) have "st' = st1" and "ex = None \<or> ex = Some (Panic NilDereference)"
        using run_loop_no_calls by blast+
      with True continue(2) handle_result_accept(1)[OF continue(3) Cons.prems(2)]
      show ?thesis by auto
    next
      case False
      from Cons.IH[OF continue(4) inv1 False] show ?thesis
        using False continue(2) by simp
    qed
  qed
qed

subsection \<open>The whole invocation\<close>

lemma RunHooks_cases:
  obtains cs st ex where
    "run_loop hookType (GetHook h hookType) args verification 0
       (sort (map fst (GetHook h hookType)))
       \<lparr>returnVal = fmempty, removeList = [], logged = Logger h\<rparr> = (cs, st, ex)"
    "calls (RunHooks h hookType args verification) = cs"
    "exit (RunHooks h hookType args verification) =
       (case ex of None \<Rightarrow> Return (returnVal st) | Some e \<Rightarrow> e)"
    "Logger (config (RunHooks h hookType args verification)) = logged st"
    "hooks (config (RunHooks h hookType args verification)) =
       (case ex of
          Some e \<Rightarrow> hooks h
        | None \<Rightarrow> (case hooks h hookType of
                     None \<Rightarrow> hooks h
                   | Some m \<Rightarrow> (hooks h)(hookType \<mapsto> fold AList.delete (removeList st) m)))"
proof -
  obtain cs st ex where run:
    "run_loop hookType (GetHook h hookType) args verification 0
       (sort (map fst (GetHook h hookType)))
       \<lparr>returnVal = fmempty, removeList = [], logged = Logger h\<rparr> = (cs, st, ex)"
    by (metis prod_cases3)
  show thesis
  proof (rule that[OF run])
    show "calls (RunHooks h hookType args verification) = cs"
      using run by (cases ex) (simp_all add: RunHooks_def)
    show "exit (RunHooks h hookType args verification) =
       (case ex of None \<Rightarrow> Return (returnVal st) | Some e \<Rightarrow> e)"
      using run by (cases ex) (simp_all add: RunHooks_def)
    show "Logger (config (RunHooks h hookType args verification)) = logged st"
      using run by (cases ex) (simp_all add: RunHooks_def)
    show "hooks (config (RunHooks h hookType args verification)) =
       (case ex of
          Some e \<Rightarrow> hooks h
        | None \<Rightarrow> (case hooks h hookType of
                     None \<Rightarrow> hooks h
                   | Some m \<Rightarrow> (hooks h)(hookType \<mapsto> fold AList.delete (removeList st) m)))"
      using run by (cases ex) (simp_all add: RunHooks_def)
  qed
qed

subsection \<open>Acceptance\<close>

text \<open>
  Invokers as functions on map values, that is, invokers that do not write into the map
  they are given.  Whatever the hook table, the hook type, the input envelope and the
  policy value: the result of a call is what the next invoker is given exactly when each
  of its keys is a key of \<open>args\<close>; when the invocation returns after at least one call, the
  result of the last call is the value returned exactly when each of its keys is a key of
  \<open>args\<close>; and every returned envelope has its keys among those of \<open>args\<close>.
\<close>

lemma RunHooks_accepts_iff_keys_closed:
  "(\<forall>i. Suc i < length (calls (RunHooks h hookType args verification)) \<longrightarrow>
      (call_arg (calls (RunHooks h hookType args verification) ! Suc i) =
       call_result (calls (RunHooks h hookType args verification) ! i)) =
      (fmdom (call_result (calls (RunHooks h hookType args verification) ! i)) |\<subseteq>| fmdom args)) \<and>
   (\<forall>ret. exit (RunHooks h hookType args verification) = Return ret \<and>
      calls (RunHooks h hookType args verification) \<noteq> [] \<longrightarrow>
      (ret = call_result (last (calls (RunHooks h hookType args verification)))) =
      (fmdom (call_result (last (calls (RunHooks h hookType args verification)))) |\<subseteq>| fmdom args)) \<and>
   (\<forall>ret. exit (RunHooks h hookType args verification) = Return ret \<longrightarrow>
      fmdom ret |\<subseteq>| fmdom args)"
proof (cases rule: RunHooks_cases[of hookType h args verification])
  case (1 cs st ex)
  have inv: "verify args (returnVal \<lparr>returnVal = fmempty, removeList = [], logged = Logger h\<rparr>)"
    by (simp add: verify_empty)
  have chain: "\<forall>i. Suc i < length cs \<longrightarrow>
      (call_arg (cs ! Suc i) = call_result (cs ! i)) = (fmdom (call_result (cs ! i)) |\<subseteq>| fmdom args)"
    using run_loop_chain[OF 1(1) inv] by (simp add: verify_iff)
  have closed: "verify args (returnVal st)" "\<And>r. ex = Some (Return r) \<Longrightarrow> verify args r"
    using run_loop_closed[OF 1(1) inv] by simp_all
  have last: "\<forall>ret. (case ex of None \<Rightarrow> Return (returnVal st) | Some e \<Rightarrow> e) = Return ret \<and> cs \<noteq> [] \<longrightarrow>
      (ret = call_result (last cs)) = (fmdom (call_result (last cs)) |\<subseteq>| fmdom args)"
    using run_loop_last[OF 1(1) inv] by (auto simp: verify_iff split: option.splits)
  have ret: "\<forall>ret. (case ex of None \<Rightarrow> Return (returnVal st) | Some e \<Rightarrow> e) = Return ret \<longrightarrow>
      fmdom ret |\<subseteq>| fmdom args"
    using closed by (auto simp: verify_iff split: option.splits)
  show ?thesis
    unfolding 1(2) 1(3) using chain last ret by blast
qed

subsection \<open>Order of the calls\<close>

lemma run_loop_sorted:
  assumes "run_loop hookType table args verification idx prios st = (cs, st', ex)"
    and "sorted prios"
  shows "sorted (map call_prio cs)"
  using run_loop_prios[OF assms(1)] assms(2) by simp

text \<open>
  Claim C2.  The priorities of the calls of one invocation are an initial part of the
  sorted list of the registered priorities, so they are in non-decreasing order and a call
  of a lower priority comes before a call of a higher one; every call applies the invoker
  that the table holds at that priority to the envelope it was given.
\<close>

theorem RunHooks_priority_order:
  "map call_prio (calls (RunHooks h hookType args verification)) =
     take (length (calls (RunHooks h hookType args verification)))
       (sort (map fst (GetHook h hookType))) \<and>
   sorted (map call_prio (calls (RunHooks h hookType args verification))) \<and>
   (\<forall>i j. i < length (calls (RunHooks h hookType args verification)) \<and>
          j < length (calls (RunHooks h hookType args verification)) \<and>
          call_prio (calls (RunHooks h hookType args verification) ! i) <
          call_prio (calls (RunHooks h hookType args verification) ! j) \<longrightarrow> i < j) \<and>
   (\<forall>c \<in> set (calls (RunHooks h hookType args verification)).
      \<exists>hook. map_of (GetHook h hookType) (call_prio c) = Some hook \<and>
             call_result c = hook (call_arg c))"
proof (cases rule: RunHooks_cases[of hookType h args verification])
  case (1 cs st ex)
  have srt: "sorted (map call_prio cs)"
    using run_loop_sorted[OF 1(1)] by simp
  have ord: "i < j" if "i < length cs" "j < length cs" "call_prio (cs ! i) < call_prio (cs ! j)" for i j
  proof (rule ccontr)
    assume "\<not> i < j"
    then have "j \<le> i" by simp
    with srt that(1) have "map call_prio cs ! j \<le> map call_prio cs ! i"
      by (simp add: sorted_iff_nth_mono del: nth_map)
    with that show False by simp
  qed
  have inv: "\<forall>c \<in> set cs. \<exists>hook. map_of (GetHook h hookType) (call_prio c) = Some hook \<and>
             call_result c = hook (call_arg c)"
    using run_loop_invoker[OF 1(1)] by blast
  have pre: "map call_prio cs = take (length cs) (sort (map fst (GetHook h hookType)))"
    using 1(1) by (rule run_loop_prios)
  show ?thesis
    unfolding 1(2) using pre srt ord inv by blast
qed

subsection \<open>Removal\<close>











subsection \<open>Runs of the concrete configuration\<close>

lemmas run_eval = RunHooks_def GetHook_def two_hooks_def request_args_def same_hook_def
  extra_hook_def handle_result_def verify_def errMsg_def show_nat.simps digit_char_def Let_def
  OnNewLogger_def OnConfigLoaded_def Ignore_def Abort_def Remove_def

lemma two_hooks_Ignore:
  "calls (RunHooks two_hooks OnNewLogger request_args Ignore) =
     [\<lparr>call_prio = 1, call_arg = request_args, call_result = fmupd ''extra'' 1 request_args\<rparr>,
      \<lparr>call_prio = 2, call_arg = request_args, call_result = request_args\<rparr>]"
  "exit (RunHooks two_hooks OnNewLogger request_args Ignore) = Return request_args"
  "Logger (config (RunHooks two_hooks OnNewLogger request_args Ignore)) =
     [''Hook onNewLogger (Prio 1) returned invalid value, ignoring'']"
  by (simp_all add: run_eval)



subsection \<open>Witnesses on the concrete configuration\<close>

theorem RunHooks_priority_order_witness:
  "(0::nat) < length (calls (RunHooks two_hooks OnNewLogger request_args Ignore)) \<and>
   Suc 0 < length (calls (RunHooks two_hooks OnNewLogger request_args Ignore)) \<and>
   call_prio (calls (RunHooks two_hooks OnNewLogger request_args Ignore) ! 0) <
   call_prio (calls (RunHooks two_hooks OnNewLogger request_args Ignore) ! Suc 0) \<and>
   sorted (map call_prio (calls (RunHooks two_hooks OnNewLogger request_args Ignore))) \<and>
   (\<exists>hook. map_of (GetHook two_hooks OnNewLogger)
             (call_prio (calls (RunHooks two_hooks OnNewLogger request_args Ignore) ! 0)) = Some hook \<and>
           call_result (calls (RunHooks two_hooks OnNewLogger request_args Ignore) ! 0) =
           hook (call_arg (calls (RunHooks two_hooks OnNewLogger request_args Ignore) ! 0)))"
proof -
  have pos: "(0::nat) < length (calls (RunHooks two_hooks OnNewLogger request_args Ignore))"
    and len: "Suc 0 < length (calls (RunHooks two_hooks OnNewLogger request_args Ignore))"
    and lt: "call_prio (calls (RunHooks two_hooks OnNewLogger request_args Ignore) ! 0) <
     call_prio (calls (RunHooks two_hooks OnNewLogger request_args Ignore) ! Suc 0)"
    by (simp_all add: two_hooks_Ignore)
  note run = RunHooks_priority_order[of two_hooks OnNewLogger request_args Ignore]
  from pos have "calls (RunHooks two_hooks OnNewLogger request_args Ignore) ! 0
      \<in> set (calls (RunHooks two_hooks OnNewLogger request_args Ignore))"
    by (rule nth_mem)
  with run[THEN conjunct2, THEN conjunct2, THEN conjunct2]
  have "\<exists>hook. map_of (GetHook two_hooks OnNewLogger)
             (call_prio (calls (RunHooks two_hooks OnNewLogger request_args Ignore) ! 0)) = Some hook \<and>
           call_result (calls (RunHooks two_hooks OnNewLogger request_args Ignore) ! 0) =
           hook (call_arg (calls (RunHooks two_hooks OnNewLogger request_args Ignore) ! 0))"
    by (rule bspec)
  with pos len lt run[THEN conjunct2, THEN conjunct1]
  show ?thesis by - (intro conjI; assumption)
qed


subsection \<open>Verification failures\<close>










subsection \<open>No hooks, and registration\<close>





text \<open>
  Claim C4, at the configuration that \<^verbatim>\<open>NewHookConfig\<close> makes: no hook type has an inner
  table there, and \<^verbatim>\<open>AddHook\<close> panics on the assignment to an entry of the nil map, for
  every hook type, priority and invoker.  Nothing is registered.
\<close>

theorem AddHook_NewHookConfig_panics:
  "AddHook NewHookConfig hookType prio (IsHookDef hookDef) = Inl NilMapAssignment"
  by (simp add: AddHook_def NewHookConfig_def)

text \<open>
  Where the hook type already has an inner table, \<^verbatim>\<open>AddHook\<close> stores the invoker at the
  priority, over whatever was there, and leaves the other priorities alone.
\<close>

lemma AddHook_registers:
  assumes "hooks h hookType = Some m"
  shows "\<exists>h'. AddHook h hookType prio (IsHookDef hookDef) = Inr h' \<and>
              map_of (GetHook h' hookType) prio = Some hookDef \<and>
              (\<forall>p. p \<noteq> prio \<longrightarrow> map_of (GetHook h' hookType) p = map_of (GetHook h hookType) p)"
  using assms by (simp add: AddHook_def GetHook_def update_conv')

subsection \<open>Maps as shared objects\<close>

lemma map_of_value_table: "map_of (value_table table) p = map_option as_value (map_of table p)"
  by (induction table) (auto simp: value_table_def)

lemma call_hook_value:
  assumes "leaves_argument hook" and "same_state args ss st"
    and "call_hook hook idx ss = (entry, ss0, result)"
  shows "entry = (if idx = 0 then args else returnVal st)"
    and "deref ss0 result = as_value hook entry"
    and "same_state args ss0 st"
  using assms
  by (auto simp: call_hook_def leaves_argument_def same_state_def deref_def as_value_def Let_def
      split: prod.splits Ref.splits Returned.splits if_splits
      dest: arg_cong[where f=fst] arg_cong[where f=snd])


lemma handle_shared_value:
  assumes "same_state args ss0 st" and "deref ss0 result = rv"
    and "handle_shared hookType verification idx prio result ss0 = (ss1, ex)"
  shows "\<exists>st1. handle_result hookType args verification idx prio rv st = (st1, ex) \<and>
              same_state args ss1 st1"
  using assms
  by (auto simp: handle_shared_def handle_result_def same_state_def deref_def Let_def
      split: if_splits Ref.splits)

lemma loop_shared_value:
  assumes "\<forall>hook \<in> snd ` set table. leaves_argument hook"
  shows "same_state args ss st \<Longrightarrow>
         loop_shared hookType table verification idx prios ss = (cs, ss', ex) \<Longrightarrow>
         \<exists>st'. run_loop hookType (value_table table) args verification idx prios st = (cs, st', ex) \<and>
               same_state args ss' st'"
proof (induction prios arbitrary: idx ss st cs ss' ex)
  case Nil
  then show ?case by simp
next
  case (Cons prio rest)
  show ?case
  proof (cases "map_of table prio")
    case None
    with Cons.prems show ?thesis
      by (simp add: map_of_value_table)
  next
    case (Some hook)
    then have "hook \<in> snd ` set table"
      by (metis map_of_SomeD snd_conv image_eqI)
    with assms have la: "leaves_argument hook" by blast
    obtain entry ss0 result where ch: "call_hook hook idx ss = (entry, ss0, result)"
      by (metis prod_cases3)
    note cv = call_hook_value[OF la Cons.prems(1) ch]
    obtain ss1 ex1 where hs: "handle_shared hookType verification idx prio result ss0 = (ss1, ex1)"
      by (cases "handle_shared hookType verification idx prio result ss0")
    from handle_shared_value[OF cv(3) cv(2) hs]
    obtain st1 where hr: "handle_result hookType args verification idx prio (as_value hook entry) st = (st1, ex1)"
      and rel1: "same_state args ss1 st1" by blast
    show ?thesis
    proof (cases ex1)
      case None
      obtain cs' ss2 ex2 where rec: "loop_shared hookType table verification (Suc idx) rest ss1 = (cs', ss2, ex2)"
        by (metis prod_cases3)
      from Cons.IH[OF rel1 rec] obtain st2 where
        rv: "run_loop hookType (value_table table) args verification (Suc idx) rest st1 = (cs', st2, ex2)"
        and rel2: "same_state args ss2 st2" by blast
      from Cons.prems(2) Some ch hs None rec
      have out: "cs = \<lparr>call_prio = prio, call_arg = entry, call_result = deref ss0 result\<rparr> # cs'"
        "ss' = ss2" "ex = ex2"
        by (simp_all add: Let_def)
      from Some hr None rv cv(1,2) out rel2 show ?thesis
        by (simp add: map_of_value_table Let_def)
    next
      case (Some e)
      from Cons.prems(2) \<open>map_of table prio = Some hook\<close> ch hs Some
      have out: "cs = [\<lparr>call_prio = prio, call_arg = entry, call_result = deref ss0 result\<rparr>]"
        "ss' = ss1" "ex = Some e"
        by (simp_all add: Let_def)
      from \<open>map_of table prio = Some hook\<close> hr Some cv(1,2) out rel1 show ?thesis
        by (simp add: map_of_value_table Let_def)
    qed
  qed
qed

lemma value_table_keys: "map fst (value_table table) = map fst table"
  by (simp add: value_table_def case_prod_unfold comp_def)

lemma value_table_delete: "value_table (AList.delete k table) = AList.delete k (value_table table)"
  unfolding value_table_def by (rule delete_map[symmetric]) (simp add: case_prod_unfold)

lemma value_table_fold_delete:
  "value_table (fold AList.delete ks table) = fold AList.delete ks (value_table table)"
  by (induction ks arbitrary: table) (simp_all add: value_table_delete)

text \<open>
  For invokers that leave their argument as it is, \<^verbatim>\<open>RunHooks\<close> on shared maps is
  \<^verbatim>\<open>RunHooks\<close> on map values: the same calls, the same exit, the same log and the same
  table afterwards, and the map \<open>args\<close> of the caller is unchanged.
\<close>

lemma RunHooks_shared_value:
  assumes "\<forall>hook \<in> snd ` set table. leaves_argument hook"
    and "hooks h hookType = Some (value_table table)"
  shows "exit_shared (RunHooks_shared table (Logger h) hookType args verification) =
           exit (RunHooks h hookType args verification) \<and>
         calls_shared (RunHooks_shared table (Logger h) hookType args verification) =
           calls (RunHooks h hookType args verification) \<and>
         log_after (RunHooks_shared table (Logger h) hookType args verification) =
           Logger (config (RunHooks h hookType args verification)) \<and>
         value_table (table_after (RunHooks_shared table (Logger h) hookType args verification)) =
           GetHook (config (RunHooks h hookType args verification)) hookType \<and>
         args_after (RunHooks_shared table (Logger h) hookType args verification) = args"
proof -
  let ?ss = "\<lparr>argsNow = args, returnRef = OtherMap fmempty, toRemove = [], logLines = Logger h\<rparr>"
  let ?st = "\<lparr>returnVal = fmempty, removeList = [], logged = Logger h\<rparr>"
  have gh: "GetHook h hookType = value_table table"
    using assms(2) by (simp add: GetHook_def)
  have rel: "same_state args ?ss ?st"
    by (simp add: same_state_def deref_def)
  obtain cs ss' ex where sh: "loop_shared hookType table verification 0 (sort (map fst table)) ?ss = (cs, ss', ex)"
    by (metis prod_cases3)
  from loop_shared_value[OF assms(1) rel sh] obtain st' where
    vl: "run_loop hookType (value_table table) args verification 0 (sort (map fst table)) ?st = (cs, st', ex)"
    and rel': "same_state args ss' st'" by blast
  show ?thesis
    using sh vl rel' assms(2)
    by (cases ex)
       (simp_all add: RunHooks_shared_def RunHooks_def gh value_table_keys same_state_def
          GetHook_def value_table_fold_delete)
qed

lemmas shared_eval = RunHooks_shared_def call_hook_def handle_shared_def deref_def verify_def
  errMsg_def show_nat.simps digit_char_def Let_def writing_hook_def request_args_def
  OnNewLogger_def OnConfigLoaded_def Ignore_def Abort_def Remove_def

text \<open>
  An invoker that writes a key into the map it is given and returns that map is accepted
  under every policy and for every hook type, and nothing is logged: the result is
  compared with the map it is.
\<close>

lemma RunHooks_shared_writer_accepted:
  "exit_shared (RunHooks_shared [(prio, \<lambda>m. (fmupd key val m, TheArgument))] logger hookType args
     verification) = Return (fmupd key val args) \<and>
   log_after (RunHooks_shared [(prio, \<lambda>m. (fmupd key val m, TheArgument))] logger hookType args
     verification) = logger \<and>
   args_after (RunHooks_shared [(prio, \<lambda>m. (fmupd key val m, TheArgument))] logger hookType args
     verification) = fmupd key val args"
  by (simp add: RunHooks_shared_def call_hook_def handle_shared_def deref_def verify_iff Let_def)

text \<open>
  Claim C1, where the code departs from it.  The only invoker registered for
  \<^verbatim>\<open>onNewLogger\<close> writes the key \<^verbatim>\<open>extra\<close> into the map it is given and returns that
  map; the input envelope is \<^verbatim>\<open>{request: 7}\<close>.  \<^verbatim>\<open>RunHooks\<close> accepts the result, logs
  nothing and returns it, although \<^verbatim>\<open>extra\<close> is a key of the result and not a key of
  the original input envelope; the caller's map has the new key too.
\<close>

theorem RunHooks_shared_accepts_written_key:
  "exit_shared (RunHooks_shared [(1, writing_hook)] [] OnNewLogger request_args Ignore) =
     Return (fmupd ''extra'' 1 request_args) \<and>
   calls_shared (RunHooks_shared [(1, writing_hook)] [] OnNewLogger request_args Ignore) =
     [\<lparr>call_prio = 1, call_arg = request_args, call_result = fmupd ''extra'' 1 request_args\<rparr>] \<and>
   log_after (RunHooks_shared [(1, writing_hook)] [] OnNewLogger request_args Ignore) = [] \<and>
   args_after (RunHooks_shared [(1, writing_hook)] [] OnNewLogger request_args Ignore) =
     fmupd ''extra'' 1 request_args \<and>
   ''extra'' |\<in>| fmdom (fmupd ''extra'' (1::nat) request_args) \<and>
   ''extra'' |\<notin>| fmdom request_args"
  by (simp add: shared_eval)

section \<open>Properties of the client and the proxy\<close>

subsection \<open>Connect\<close>

text \<open>
  Claim C7.  For a proxy in fixed mode whose pool holds no client, \<^verbatim>\<open>Connect\<close> returns
  \<^verbatim>\<open>ErrPoolExhausted\<close> and leaves the world and the proxy as they were: it makes no
  dial, stores nothing in \<^verbatim>\<open>connClients\<close>, and takes no step that could wait.
\<close>

theorem Connect_fixed_pool_exhausted:
  assumes "\<not> Elastic pr" and "ClientIDs (pool pr) = []"
  shows "Connect pf (w, pr) gconn = ((w, pr), Return (Some ErrPoolExhausted))"
  using assms by (simp add: Connect_def)

theorem Connect_fixed_pool_exhausted_witness:
  "\<not> Elastic fixed_proxy \<and> ClientIDs (pool fixed_proxy) = [] \<and>
   Connect test_platform (up_world, fixed_proxy) 8 =
     ((up_world, fixed_proxy), Return (Some ErrPoolExhausted))"
proof -
  have a: "\<not> Elastic fixed_proxy" and b: "ClientIDs (pool fixed_proxy) = []"
    by (simp_all add: fixed_proxy_def ClientIDs_def)
  from Connect_fixed_pool_exhausted[OF a b, of test_platform up_world 8] a b
  show ?thesis by - (intro conjI; assumption)
qed

subsection \<open>Close\<close>

text \<open>
  Claim C9.  \<^verbatim>\<open>Close\<close> leaves every field of the client zero and closes the
  connection the client held, if it held one; a second \<^verbatim>\<open>Close\<close> changes neither the
  client nor the world, so closing twice gives the state that closing once gives.
\<close>

theorem Close_idempotent:
  "Close (fst (Close w c)) (snd (Close w c)) = Close w c \<and>
   snd (Close w c) = \<lparr>Conn = None, ID = [], ReceiveBufferSize = 0, Network = [], Address = []\<rparr> \<and>
   fst (Close w c) = w\<lparr>closed := closed w @ (case Conn c of None \<Rightarrow> [] | Some k \<Rightarrow> [k])\<rparr>"
  by (cases c) (simp add: Close_def split: option.splits)

subsection \<open>Disconnect\<close>

lemma NewClient_closed:
  "NewClient pf w network address n = (w1, client1) \<Longrightarrow> closed w1 = closed w"
  by (auto simp: NewClient_def net_Dial_def Let_def split: list.splits option.splits)

text \<open>
  Claim C10.  When the inbound connection has no entry in \<^verbatim>\<open>connClients\<close>: in elastic
  mode without reuse \<^verbatim>\<open>Disconnect\<close> panics on the nil client; in fixed mode and in
  elastic mode with reuse it returns, and closes no connection, since \<^verbatim>\<open>Reconnect\<close> on
  the nil client only makes a new client.
\<close>

theorem Disconnect_unassigned:
  assumes "connClients pr gconn = None"
  shows "(Elastic pr \<and> \<not> ReuseElasticClients pr \<longrightarrow>
            snd (Disconnect pf (w, pr) gconn) = Panic NilDereference) \<and>
         (\<not> Elastic pr \<or> ReuseElasticClients pr \<longrightarrow>
            (\<exists>e. snd (Disconnect pf (w, pr) gconn) = Return e) \<and>
            closed (fst (fst (Disconnect pf (w, pr) gconn))) = closed w) \<and>
         Reconnect pf w pr None = NewClient pf w ''tcp'' ''localhost:5432'' (BufferSize pr)"
proof (intro conjI impI)
  assume "Elastic pr \<and> \<not> ReuseElasticClients pr"
  with assms show "snd (Disconnect pf (w, pr) gconn) = Panic NilDereference"
    by (simp add: Disconnect_def Close_ptr_def)
next
  show "Reconnect pf w pr None = NewClient pf w ''tcp'' ''localhost:5432'' (BufferSize pr)"
    by (simp add: Reconnect_def)
next
  assume mode: "\<not> Elastic pr \<or> ReuseElasticClients pr"
  let ?pr1 = "pr\<lparr>connClients := (connClients pr)(gconn := None)\<rparr>"
  obtain w1 client1 where new: "NewClient pf w ''tcp'' ''localhost:5432'' (BufferSize pr) = (w1, client1)"
    by (cases "NewClient pf w ''tcp'' ''localhost:5432'' (BufferSize pr)")
  have cl: "closed w1 = closed w"
    using new by (rule NewClient_closed)
  have rec: "Reconnect pf w ?pr1 None = (w1, client1)"
    using new by (simp add: Reconnect_def)
  have dis: "Disconnect pf (w, pr) gconn =
      (case client1 of
         None \<Rightarrow> ((w1, ?pr1), Return None)
       | Some c \<Rightarrow>
           if ID c \<noteq> [] then
             (case Put (pool ?pr1) c of
                (pool1, Some err) \<Rightarrow>
                  ((w1, ?pr1\<lparr>pool := pool1\<rparr>),
                   Return (Some (Wrapped ''failed to put the client back in the pool'' err)))
              | (pool1, None) \<Rightarrow> ((w1, ?pr1\<lparr>pool := pool1\<rparr>), Return None))
           else ((w1, ?pr1), Return None))"
    using assms mode rec by (auto simp: Disconnect_def Let_def)
  have "(\<exists>e. snd (Disconnect pf (w, pr) gconn) = Return e) \<and>
        closed (fst (fst (Disconnect pf (w, pr) gconn))) = closed w"
    unfolding dis using cl by (simp split: option.splits prod.splits)
  then show "\<exists>e. snd (Disconnect pf (w, pr) gconn) = Return e"
    and "closed (fst (fst (Disconnect pf (w, pr) gconn))) = closed w"
    by blast+
qed

theorem Disconnect_unassigned_witness:
  "connClients elastic_proxy 8 = None \<and> Elastic elastic_proxy \<and> \<not> ReuseElasticClients elastic_proxy \<and>
   snd (Disconnect test_platform (up_world, elastic_proxy) 8) = Panic NilDereference \<and>
   connClients fixed_proxy 8 = None \<and> \<not> Elastic fixed_proxy \<and>
   (\<exists>e. snd (Disconnect test_platform (up_world, fixed_proxy) 8) = Return e)"
proof -
  have a: "connClients elastic_proxy 8 = None" and b: "Elastic elastic_proxy"
    and c: "\<not> ReuseElasticClients elastic_proxy"
    and d: "connClients fixed_proxy 8 = None" and e: "\<not> Elastic fixed_proxy"
    by (simp_all add: elastic_proxy_def fixed_proxy_def)
  from Disconnect_unassigned[OF a, of test_platform up_world, THEN conjunct1] b c
  have p: "snd (Disconnect test_platform (up_world, elastic_proxy) 8) = Panic NilDereference"
    by simp
  from Disconnect_unassigned[OF d, of test_platform up_world, THEN conjunct2, THEN conjunct1] e
  have r: "\<exists>e. snd (Disconnect test_platform (up_world, fixed_proxy) 8) = Return e"
    by simp
  from a b c p d e r show ?thesis
    by - (intro conjI; assumption)
qed

subsection \<open>PassThrough\<close>

lemmas proxy_eval = PassThrough_def Send_def Receive_def Reconnect_def NewClient_def net_Dial_def
  Close_def Let_def fixed_proxy_def live_client_def up_world_def down_world_def eof_exchange_def
  test_platform_def DefaultSeed_def show_nat.simps digit_char_def

text \<open>
  A client with a connection is assigned to the inbound connection, the upstream write
  succeeds and the upstream read fails with an error that is or wraps \<^verbatim>\<open>io.EOF\<close>.
  When the dial that \<^verbatim>\<open>Reconnect\<close> makes succeeds, \<^verbatim>\<open>PassThrough\<close> returns nil and
  the entry of the inbound connection is the client that \<^verbatim>\<open>Reconnect\<close> returned: it
  holds the new connection, and its id is \<^verbatim>\<open>GetID\<close> of the local address of the new
  connection.
\<close>

lemma PassThrough_EOF_dial_succeeds:
  assumes "connClients pr gconn = Some (Some client)"
    and "Conn client = Some k"
    and "0 \<le> ReceiveBufferSize client"
    and "write_outcome x = None"
    and "read_outcome x = Inl e"
    and "errors_Is e EOF"
    and "dial_results w = Some k' # ds"
  shows "\<exists>w' newc.
           PassThrough pf (w, pr) gconn x =
             ((w', pr\<lparr>connClients := (connClients pr)(gconn \<mapsto> Some newc)\<rparr>), Return None) \<and>
           (w', Some newc) = Reconnect pf w pr (Some client) \<and>
           Conn newc = Some k' \<and>
           ID newc = GetID pf (fst (LocalAddr pf k')) (snd (LocalAddr pf k')) DefaultSeed \<and>
           closed w' = closed w @ (if ID client \<noteq> [] then [k] else []) \<and>
           length (dials w') = Suc (length (dials w))"
  using assms
  by (simp add: PassThrough_def Send_def Receive_def Reconnect_def NewClient_def net_Dial_def
      Close_def Let_def)

text \<open>
  When that dial fails, \<^verbatim>\<open>NewClient\<close> and with it \<^verbatim>\<open>Reconnect\<close> return nil, and nil
  is what \<^verbatim>\<open>PassThrough\<close> stores for the inbound connection.
\<close>

lemma PassThrough_EOF_dial_fails:
  assumes "connClients pr gconn = Some (Some client)"
    and "Conn client = Some k"
    and "0 \<le> ReceiveBufferSize client"
    and "write_outcome x = None"
    and "read_outcome x = Inl e"
    and "errors_Is e EOF"
    and "dial_results w = None # ds"
  shows "\<exists>w'. PassThrough pf (w, pr) gconn x =
             ((w', pr\<lparr>connClients := (connClients pr)(gconn \<mapsto> None)\<rparr>), Return None)"
  using assms
  by (simp add: PassThrough_def Send_def Receive_def Reconnect_def NewClient_def net_Dial_def
      Close_def Let_def)

text \<open>A \<^verbatim>\<open>PassThrough\<close> for an inbound connection whose entry is the nil client panics.\<close>

lemma PassThrough_nil_client:
  assumes "connClients pr gconn = Some None"
  shows "PassThrough pf (w, pr) gconn x = ((w, pr), Panic NilDereference)"
  using assms by (simp add: PassThrough_def Send_def)

text \<open>
  Claim C8, where the code departs from it.  The client \<open>live_client\<close> is assigned to the
  inbound connection 7, the upstream read fails with \<^verbatim>\<open>io.EOF\<close>, and the upstream
  refuses the dial that \<^verbatim>\<open>Reconnect\<close> makes.  \<^verbatim>\<open>PassThrough\<close> closes the old
  connection, returns nil, and leaves the nil client as the entry of the inbound
  connection: no new client and no new id.  The next \<^verbatim>\<open>PassThrough\<close> for that inbound
  connection panics on it.
\<close>

theorem PassThrough_EOF_stores_nil_client:
  "connClients fixed_proxy 7 = Some (Some live_client) \<and>
   read_outcome eof_exchange = Inl EOF \<and>
   dial_results down_world = [None] \<and>
   PassThrough test_platform (down_world, fixed_proxy) 7 eof_exchange =
     ((\<lparr>dial_results = [], dials = [(''tcp'', ''localhost:5432'')], closed = [1], written = []\<rparr>,
       fixed_proxy\<lparr>connClients := (connClients fixed_proxy)(7 \<mapsto> None)\<rparr>),
      Return None) \<and>
   snd (PassThrough test_platform
          (fst (PassThrough test_platform (down_world, fixed_proxy) 7 eof_exchange)) 7 eof_exchange) =
     Panic NilDereference"
proof -
  have first: "PassThrough test_platform (down_world, fixed_proxy) 7 eof_exchange =
     ((\<lparr>dial_results = [], dials = [(''tcp'', ''localhost:5432'')], closed = [1], written = []\<rparr>,
       fixed_proxy\<lparr>connClients := (connClients fixed_proxy)(7 \<mapsto> None)\<rparr>),
      Return None)"
    by (simp add: proxy_eval)
  have "snd (PassThrough test_platform
          (\<lparr>dial_results = [], dials = [(''tcp'', ''localhost:5432'')], closed = [1], written = []\<rparr>,
           fixed_proxy\<lparr>connClients := (connClients fixed_proxy)(7 \<mapsto> None)\<rparr>) 7 eof_exchange) =
     Panic NilDereference"
    by (simp add: PassThrough_nil_client)
  then show ?thesis
    unfolding first by (simp add: fixed_proxy_def eof_exchange_def down_world_def)
qed

end
